theory Spec2Isabelle
  imports Complex_Main "HOL-Library.Char_ord" "HOL-Library.List_Lexorder"
begin

section \<open>The skill taxonomy\<close>

text \<open>
  Every variant of the program (\<^verbatim>\<open>sl.py\<close>, \<^verbatim>\<open>slv2.py\<close>, \<^verbatim>\<open>slv3.py\<close>,
  \<^verbatim>\<open>tokyo_night_gui.py\<close>) starts from the same dictionary \<^verbatim>\<open>self.attributes\<close>: five
  attribute names, each with a list of ten skill names. A Python dictionary keeps its
  insertion order, so the dictionary is an association list.
\<close>

definition attributes :: "(string \<times> string list) list" where
  "attributes =
    [(''life_skills'',
        [''communication'', ''critical_thinking_problem_solving'', ''time_management'',
         ''self_care_emotional_regulation'', ''cooking_nutrition'', ''car_home_maintenance'',
         ''digital_literacy'', ''interpersonal_social_skills'', ''independence'',
         ''learning_efficiency'']),
     (''content_creation'',
        [''seo_literacy'', ''video_editing'', ''streaming'', ''long_form_content_output'',
         ''short_form_content_output'', ''charisma'', ''personality_authenticity'',
         ''online_presence'', ''consistency'', ''backlog_management'']),
     (''financial_literacy'',
        [''budgeting_savings'', ''emergency_fund_management'', ''investment_knowledge'',
         ''retirement_contributions_roth'', ''401k_optimization'', ''hsa_utilization'',
         ''insurance_literacy'', ''loan_understanding'', ''tax_optimization'',
         ''financial_goal_tracking'']),
     (''career'',
        [''technical_mastery'', ''soft_skills_work'', ''time_management_work'',
         ''growth_milestones'', ''professional_networking'', ''contribution_tracking'',
         ''performance_feedback'', ''industry_knowledge'', ''leadership_development'',
         ''project_management'']),
     (''vision_strategy'',
        [''daily_goal_setting'', ''weekly_planning'', ''monthly_goal_review'',
         ''quarterly_assessment'', ''yearly_vision_alignment'', ''system_design'',
         ''reflection_reviewing'', ''strategic_thinking'', ''priority_management'',
         ''personal_roadmapping''])]"

text \<open>
  The nested loops \<^verbatim>\<open>for attribute in self.attributes: for skill in
  self.attributes[attribute]\<close> visit the (attribute, skill) pairs in this order.
\<close>

definition skill_keys :: "(string \<times> string) list" where
  "skill_keys = concat (map (\<lambda>(a, ss). map (Pair a) ss) attributes)"

section \<open>Python exceptions\<close>

datatype py_error = ZeroDivisionError | KeyError | EOFError

section \<open>The leveling calculator\<close>

text \<open>
  \<^verbatim>\<open>sigmoid_level_calculation(total_points, max_points)\<close> is the same text in all four
  source files. Python integers are unbounded (\<^typ>\<open>int\<close>). The body computes in
  floating point; the model computes the same expression in exact real arithmetic, so
  rounding, overflow and underflow of the float operations are not represented. In
  exact arithmetic the logistic value stays below 1 and \<^verbatim>\<open>min(level, 100)\<close> never
  cuts. \<^verbatim>\<open>total_points / max_points\<close> raises \<^verbatim>\<open>ZeroDivisionError\<close> for a zero
  divisor. \<^verbatim>\<open>int(...)\<close> truncates towards zero; its argument
  \<open>1 + sigmoid_value * 99\<close> is positive, where truncation is the floor.
\<close>

definition sigmoid_value :: "real \<Rightarrow> real" where
  "sigmoid_value x = 1 / (1 + exp (- 10 * (x - 1 / 2)))"

definition sigmoid_level_calculation :: "int \<Rightarrow> int \<Rightarrow> py_error + int" where
  "sigmoid_level_calculation total_points max_points =
     (if total_points \<le> 0 then Inr 1
      else if max_points = 0 then Inl ZeroDivisionError
      else
        let x = real_of_int total_points / real_of_int max_points;
            level = \<lfloor>1 + sigmoid_value x * 99\<rfloor>
        in Inr (min level 100))"

section \<open>Text typed by the user\<close>

text \<open>
  Levels reach the program as text: a line returned by \<^verbatim>\<open>input().strip()\<close> on the
  console, the content of a \<^verbatim>\<open>tk.StringVar\<close> in the windows. The program asks two
  things of such a text: whether it is empty where it is tested (after \<^verbatim>\<open>.strip()\<close>
  where the program strips it), and what \<^verbatim>\<open>int(...)\<close> makes of it. The model keeps
  exactly that: \<open>Blank\<close> is a text that is empty there, \<open>IntText n\<close> a text for which
  \<^verbatim>\<open>int\<close> returns \<open>n\<close>, \<open>Malformed\<close> a non-empty text for which \<^verbatim>\<open>int\<close> raises
  \<^verbatim>\<open>ValueError\<close>.
\<close>

datatype field_text = Blank | IntText int | Malformed

text \<open>
  The optional custom date of an update session, classified by
  \<^verbatim>\<open>datetime.strptime(custom_date, "%Y-%m-%d")\<close>: empty, accepted, or rejected with
  \<^verbatim>\<open>ValueError\<close>.
\<close>

datatype date_text = NoDate | GoodDate string | BadDate

text \<open>
  \<^verbatim>\<open>datetime.now()\<close> is read through two formats: \<^verbatim>\<open>.isoformat()\<close> and
  \<^verbatim>\<open>.strftime('%H:%M:%S')\<close>. The clock is an argument of every operation that reads it.
\<close>

record clock =
  now_isoformat :: string
  now_hms :: string

section \<open>The SQLite store of \<^verbatim>\<open>slv2.py\<close>, \<^verbatim>\<open>slv3.py\<close> and \<^verbatim>\<open>tokyo_night_gui.py\<close>\<close>

text \<open>
  The three tables of \<^verbatim>\<open>init_database\<close>, each a list of rows in insertion order.
  A row of \<^verbatim>\<open>skills\<close> is (attribute, skill_name, current_level); its columns \<^verbatim>\<open>id\<close> and
  \<^verbatim>\<open>last_updated\<close> are written but never read by the program and are left out.
  Columns \<^verbatim>\<open>id\<close> and \<^verbatim>\<open>notes\<close> of \<^verbatim>\<open>sessions\<close> are \<open>session_rowid\<close> and
  \<open>session_notes\<close>. The columns of \<^verbatim>\<open>session_updates\<close> carry the prefix \<open>row_\<close>, since
  the program uses the same names for its local variables.
\<close>

record sessions_row =
  session_rowid :: nat
  session_timestamp :: string
  total_gains :: int
  session_type :: string
  session_notes :: "string option"

record session_updates_row =
  row_session_id :: nat
  row_attribute :: string
  row_skill_name :: string
  row_old_level :: int
  row_new_level :: int
  row_gain :: int

record database =
  skills :: "(string \<times> string \<times> int) list"
  sessions :: "sessions_row list"
  session_updates :: "session_updates_row list"

definition empty_database :: database where
  "empty_database = \<lparr>skills = [], sessions = [], session_updates = []\<rparr>"

text \<open>
  \<^verbatim>\<open>INSERT OR IGNORE INTO skills (attribute, skill_name, current_level)\<close>: the table is
  \<^verbatim>\<open>UNIQUE(attribute, skill_name)\<close>, so a row whose key is present is not inserted.
\<close>

definition insert_or_ignore_skill ::
  "string \<times> string \<times> int \<Rightarrow> (string \<times> string \<times> int) list \<Rightarrow> (string \<times> string \<times> int) list" where
  "insert_or_ignore_skill row rows =
     (case row of (a, s, l) \<Rightarrow>
        if (a, s) \<in> set (map (\<lambda>(a', s', l'). (a', s')) rows) then rows else rows @ [row])"

definition init_database :: "database \<Rightarrow> database" where
  "init_database db =
     (if length (skills db) = 0
      then db\<lparr>skills := fold (\<lambda>(a, s). insert_or_ignore_skill (a, s, 1)) skill_keys (skills db)\<rparr>
      else db)"

definition check_first_run :: "database \<Rightarrow> bool" where
  "check_first_run db =
     (let has_progress = (length (filter (\<lambda>(a, s, l). l > 1) (skills db)) > 0);
          has_sessions = (length (sessions db) > 0)
      in \<not> (has_progress \<or> has_sessions))"





text \<open>
  \<^verbatim>\<open>get_current_skills\<close> builds \<^verbatim>\<open>skills[attribute][skill_name] = level\<close> row by row; the
  nested dictionary is a map on (attribute, skill) pairs. The rows are fetched with
  \<^verbatim>\<open>ORDER BY attribute, skill_name\<close>; as the table is \<^verbatim>\<open>UNIQUE(attribute, skill_name)\<close>
  no key is assigned twice and the order of the rows does not show in the dictionary.
  Callers read it with \<^verbatim>\<open>.get(attribute, {}).get(skill, 1)\<close>.
\<close>

definition get_current_skills :: "database \<Rightarrow> (string \<times> string) \<rightharpoonup> int" where
  "get_current_skills db = fold (\<lambda>(a, s, l) m. m((a, s) \<mapsto> l)) (skills db) Map.empty"

definition current_level_of :: "((string \<times> string) \<rightharpoonup> int) \<Rightarrow> string \<Rightarrow> string \<Rightarrow> int" where
  "current_level_of current_skills a s = (case current_skills (a, s) of None \<Rightarrow> 1 | Some l \<Rightarrow> l)"

subsection \<open>Writing a session\<close>

text \<open>
  \<^verbatim>\<open>INSERT INTO sessions ...\<close> followed by \<^verbatim>\<open>cursor.lastrowid\<close>: the key is one more
  than the largest key of the table.
\<close>

definition insert_session ::
  "string \<Rightarrow> int \<Rightarrow> string \<Rightarrow> string option \<Rightarrow> database \<Rightarrow> database \<times> nat" where
  "insert_session ts gains ty n db =
     (let sid = Suc (fold max (map session_rowid (sessions db)) 0)
      in (db\<lparr>sessions := sessions db @
              [\<lparr>session_rowid = sid, session_timestamp = ts, total_gains = gains,
                session_type = ty, session_notes = n\<rparr>]\<rparr>, sid))"

text \<open>
  \<^verbatim>\<open>UPDATE skills SET current_level = ? WHERE attribute = ? AND skill_name = ?\<close>: every
  matching row is changed; no row is created.
\<close>

definition update_skill ::
  "string \<Rightarrow> string \<Rightarrow> int \<Rightarrow> (string \<times> string \<times> int) list \<Rightarrow> (string \<times> string \<times> int) list" where
  "update_skill a s v rows =
     map (\<lambda>(a', s', l). if a' = a \<and> s' = s then (a', s', v) else (a', s', l)) rows"

text \<open>
  An update in memory is the tuple (attribute, skill, old_level, new_level, gain) of
  \<^verbatim>\<open>slv3.py\<close>; \<^verbatim>\<open>slv2.py\<close> holds the same five values in a dictionary. One round of the
  loop of \<^verbatim>\<open>save_update_session\<close> writes the level and records the update.
\<close>

type_synonym update = "string \<times> string \<times> int \<times> int \<times> int"

fun update_row :: "nat \<Rightarrow> update \<Rightarrow> session_updates_row" where
  "update_row sid (a, s, old, new, g) =
     \<lparr>row_session_id = sid, row_attribute = a, row_skill_name = s,
      row_old_level = old, row_new_level = new, row_gain = g\<rparr>"

definition write_update :: "nat \<Rightarrow> update \<Rightarrow> database \<Rightarrow> database" where
  "write_update sid u db =
     (case u of (a, s, old, new, g) \<Rightarrow>
        db\<lparr>skills := update_skill a s new (skills db),
           session_updates := session_updates db @ [update_row sid u]\<rparr>)"

definition save_update_session :: "string \<Rightarrow> update list \<Rightarrow> int \<Rightarrow> database \<Rightarrow> database" where
  "save_update_session timestamp updates gains db =
     (case insert_session timestamp gains ''skill_update'' None db of
        (db1, sid) \<Rightarrow> fold (write_update sid) updates db1)"

subsection \<open>The initial assessment, console (\<^verbatim>\<open>slv2.py\<close>)\<close>

text \<open>
  \<^verbatim>\<open>save_crystal_ball_assessment(assessment, session_data)\<close>: \<open>assessment\<close> is the nested
  dictionary of levels, flattened to (attribute, skill, level) in insertion order;
  \<open>timestamp\<close> and \<open>updates\<close> are the two entries of \<open>session_data\<close> that are read.
\<close>

definition crystal_ball_notes :: string where
  "crystal_ball_notes = ''Initial stat assessment using the mystical crystal ball''"

definition save_crystal_ball_assessment ::
  "(string \<times> string \<times> int) list \<Rightarrow> string \<Rightarrow> update list \<Rightarrow> database \<Rightarrow> database" where
  "save_crystal_ball_assessment assessment timestamp updates db =
     (case insert_session timestamp (sum_list (map (\<lambda>(a, s, old, new, g). g) updates))
             ''crystal_ball_assessment'' (Some crystal_ball_notes) db of
        (db1, sid) \<Rightarrow>
          fold (\<lambda>(a, s, level). write_update sid (a, s, 1, level, level - 1)) assessment db1)"

text \<open>
  The prompt of one skill: \<^verbatim>\<open>while True: ... input(...)\<close>. The lines still to be read
  from standard input are a list; \<^verbatim>\<open>input\<close> raises \<^verbatim>\<open>EOFError\<close> when none is left.
\<close>

fun prompt_assessment :: "field_text list \<Rightarrow> py_error + (int \<times> field_text list)" where
  "prompt_assessment [] = Inl EOFError"
| "prompt_assessment (Blank # rest) = Inr (1, rest)"
| "prompt_assessment (IntText level # rest) =
     (if level < 1 \<or> level > 100 then prompt_assessment rest else Inr (level, rest))"
| "prompt_assessment (Malformed # rest) = prompt_assessment rest"

fun assessment_loop ::
  "(string \<times> string) list \<Rightarrow> field_text list \<Rightarrow> (string \<times> string \<times> int) list \<Rightarrow> update list \<Rightarrow>
     py_error + ((string \<times> string \<times> int) list \<times> update list \<times> field_text list)" where
  "assessment_loop [] inputs initial_assessment updates = Inr (initial_assessment, updates, inputs)"
| "assessment_loop ((a, s) # keys) inputs initial_assessment updates =
     (case prompt_assessment inputs of
        Inl e \<Rightarrow> Inl e
      | Inr (level, rest) \<Rightarrow>
          assessment_loop keys rest (initial_assessment @ [(a, s, level)])
            (updates @ [(a, s, 1, level, level - 1)]))"

definition crystal_ball_assessment ::
  "clock \<Rightarrow> field_text list \<Rightarrow> database \<Rightarrow> py_error + (database \<times> field_text list)" where
  "crystal_ball_assessment clk inputs db =
     (case assessment_loop skill_keys inputs [] [] of
        Inl e \<Rightarrow> Inl e
      | Inr (initial_assessment, updates, rest) \<Rightarrow>
          Inr (save_crystal_ball_assessment initial_assessment (now_isoformat clk) updates db, rest))"

subsection \<open>The update session, console (\<^verbatim>\<open>slv2.py\<close>)\<close>

fun prompt_update :: "int \<Rightarrow> field_text list \<Rightarrow> py_error + (int \<times> field_text list)" where
  "prompt_update current_level [] = Inl EOFError"
| "prompt_update current_level (Blank # rest) = Inr (current_level, rest)"
| "prompt_update current_level (IntText new_level # rest) =
     (if new_level < current_level then prompt_update current_level rest
      else if new_level > current_level + 10 then prompt_update current_level rest
      else if new_level > 100 then prompt_update current_level rest
      else Inr (new_level, rest))"
| "prompt_update current_level (Malformed # rest) = prompt_update current_level rest"

fun update_loop ::
  "((string \<times> string) \<rightharpoonup> int) \<Rightarrow> (string \<times> string) list \<Rightarrow> field_text list \<Rightarrow> update list \<Rightarrow> int \<Rightarrow>
     py_error + (update list \<times> int \<times> field_text list)" where
  "update_loop current_skills [] inputs pending gains = Inr (pending, gains, inputs)"
| "update_loop current_skills ((a, s) # keys) inputs pending gains =
     (let current_level = current_level_of current_skills a s
      in case prompt_update current_level inputs of
           Inl e \<Rightarrow> Inl e
         | Inr (new_level, rest) \<Rightarrow>
             if new_level > current_level
             then update_loop current_skills keys rest
                    (pending @
                       [(a, s, current_level, new_level, new_level - current_level)])
                    (gains + (new_level - current_level))
             else update_loop current_skills keys rest pending gains)"

text \<open>
  The timestamp of a console session: a custom date that \<^verbatim>\<open>strptime\<close> rejects is
  reported and replaced by the current time.
\<close>

definition session_timestamp_v2 :: "clock \<Rightarrow> date_text \<Rightarrow> string" where
  "session_timestamp_v2 clk custom_date =
     (case custom_date of
        NoDate \<Rightarrow> now_isoformat clk
      | GoodDate d \<Rightarrow> d @ ''T'' @ now_hms clk
      | BadDate \<Rightarrow> now_isoformat clk)"

text \<open>
  \<^verbatim>\<open>update_skills_session\<close>: the answer to the date prompt, the first line read, is the
  argument \<open>custom_date\<close>; \<open>inputs\<close> are the lines after it. The result is the store
  the session leaves and the lines not read; an exception leaves the function before
  anything is written.
\<close>

definition update_skills_session ::
  "clock \<Rightarrow> date_text \<Rightarrow> field_text list \<Rightarrow> database \<Rightarrow> py_error + (database \<times> field_text list)" where
  "update_skills_session clk custom_date inputs db =
     (let stamp = session_timestamp_v2 clk custom_date;
          current_skills = get_current_skills db
      in case update_loop current_skills skill_keys inputs [] 0 of
           Inl e \<Rightarrow> Inl e
         | Inr (pending, gains, rest) \<Rightarrow>
             if pending \<noteq> []
             then Inr (save_update_session stamp pending gains db, rest)
             else Inr (db, rest))"

subsection \<open>The windows (\<^verbatim>\<open>slv3.py\<close>)\<close>

text \<open>
  \<^verbatim>\<open>process_skill_updates\<close> reports a failure with \<^verbatim>\<open>messagebox.showerror\<close> and returns.
  The constructors stand for its messages, each with the skill it names:
  \<open>InvalidInput\<close> for "Invalid level for ...!", \<open>LevelDecreaseRejected\<close> for "Cannot
  decrease ... level!", \<open>DeltaExceeded\<close> for "Max +10 increase for ...!",
  \<open>LevelCeilingExceeded\<close> for "Max level is 100 for ...!", \<open>InvalidDate\<close> for "Invalid
  date format. Use YYYY-MM-DD".
\<close>

datatype validation_error =
    InvalidInput string
  | LevelDecreaseRejected string
  | DeltaExceeded string
  | LevelCeilingExceeded string
  | InvalidDate

datatype outcome = ShowError validation_error | NoUpdates | Success nat int

text \<open>
  An entry of \<^verbatim>\<open>self.update_entries\<close> is (attribute, skill, text of \<^verbatim>\<open>'var'\<close>, \<^verbatim>\<open>'current'\<close>):
  the text typed for the skill, and the level that \<^verbatim>\<open>setup_update_interface\<close> or
  \<^verbatim>\<open>refresh_all_data\<close> last read from the store for it.
\<close>

type_synonym entry = "string \<times> string \<times> field_text \<times> int"

definition update_entries_of :: "database \<Rightarrow> (string \<times> string \<Rightarrow> field_text) \<Rightarrow> entry list" where
  "update_entries_of db typed =
     map (\<lambda>(a, s). (a, s, typed (a, s), current_level_of (get_current_skills db) a s)) skill_keys"

fun validate_entries :: "entry list \<Rightarrow> update list \<Rightarrow> int \<Rightarrow> validation_error + (update list \<times> int)" where
  "validate_entries [] updates gains = Inr (updates, gains)"
| "validate_entries ((a, s, new_value, current_level) # es) updates gains =
     (case new_value of
        Blank \<Rightarrow> validate_entries es updates gains
      | Malformed \<Rightarrow> Inl (InvalidInput s)
      | IntText new_level \<Rightarrow>
          if new_level < current_level then Inl (LevelDecreaseRejected s)
          else if new_level > current_level + 10 then Inl (DeltaExceeded s)
          else if new_level > 100 then Inl (LevelCeilingExceeded s)
          else if new_level > current_level
          then validate_entries es
                 (updates @ [(a, s, current_level, new_level, new_level - current_level)])
                 (gains + (new_level - current_level))
          else validate_entries es updates gains)"

text \<open>
  \<^verbatim>\<open>process_skill_updates\<close>: the result is the store it leaves and what it shows. Every
  failure returns before the first statement that writes.
\<close>

definition process_skill_updates ::
  "clock \<Rightarrow> date_text \<Rightarrow> entry list \<Rightarrow> database \<Rightarrow> database \<times> outcome" where
  "process_skill_updates clk custom_date update_entries db =
     (case validate_entries update_entries [] 0 of
        Inl e \<Rightarrow> (db, ShowError e)
      | Inr (updates, gains) \<Rightarrow>
          if updates = [] then (db, NoUpdates)
          else
            (case custom_date of
               BadDate \<Rightarrow> (db, ShowError InvalidDate)
             | GoodDate d \<Rightarrow>
                 (save_update_session (d @ ''T'' @ now_hms clk) updates gains db,
                  Success (length updates) gains)
             | NoDate \<Rightarrow>
                 (save_update_session (now_isoformat clk) updates gains db,
                  Success (length updates) gains)))"

text \<open>
  \<^verbatim>\<open>process_crystal_ball_assessment(entries)\<close>: \<^verbatim>\<open>int(text or 1)\<close>, clamped to 1..100; a
  text that \<^verbatim>\<open>int\<close> rejects is recorded as level 1 with gain 0.
\<close>

fun crystal_updates ::
  "(string \<times> string \<times> field_text) list \<Rightarrow> update list \<Rightarrow> int \<Rightarrow> update list \<times> int" where
  "crystal_updates [] updates gains = (updates, gains)"
| "crystal_updates ((a, s, txt) # es) updates gains =
     (case txt of
        Malformed \<Rightarrow> crystal_updates es (updates @ [(a, s, 1, 1, 0)]) gains
      | Blank \<Rightarrow>
          (let new_level = max 1 (min 100 1); g = new_level - 1
           in crystal_updates es (updates @ [(a, s, 1, new_level, g)]) (gains + g))
      | IntText n \<Rightarrow>
          (let new_level = max 1 (min 100 n); g = new_level - 1
           in crystal_updates es (updates @ [(a, s, 1, new_level, g)]) (gains + g)))"

definition process_crystal_ball_assessment ::
  "clock \<Rightarrow> (string \<times> string \<times> field_text) list \<Rightarrow> database \<Rightarrow> database" where
  "process_crystal_ball_assessment clk entries db =
     (case crystal_updates entries [] 0 of
        (updates, gains) \<Rightarrow>
          (case insert_session (now_isoformat clk) gains ''crystal_ball_assessment''
                  (Some crystal_ball_notes) db of
             (db1, sid) \<Rightarrow> fold (write_update sid) updates db1))"

subsection \<open>History\<close>






subsection \<open>Reachable stores\<close>

text \<open>
  A step of the store is one run of an operation that can write to it: a start of the
  program (\<^verbatim>\<open>init_database\<close>), an assessment or an update session of the console, an
  assessment or a click on "Save Updates" in the windows. In the windows the entries
  cover the taxonomy and \<^verbatim>\<open>'current'\<close> is the stored level, as \<^verbatim>\<open>refresh_all_data\<close>
  leaves it after every write.
\<close>

inductive store_step :: "database \<Rightarrow> database \<Rightarrow> bool" where
  restart: "store_step db (init_database db)"
| console_assessment:
    "crystal_ball_assessment clk inputs db = Inr (db', rest) \<Longrightarrow> store_step db db'"
| console_update:
    "update_skills_session clk custom_date inputs db = Inr (db', rest) \<Longrightarrow> store_step db db'"
| window_assessment:
    "map (\<lambda>(a, s, txt). (a, s)) entries = skill_keys \<Longrightarrow>
     store_step db (process_crystal_ball_assessment clk entries db)"
| window_update:
    "process_skill_updates clk custom_date (update_entries_of db typed) db = (db', out) \<Longrightarrow>
     store_step db db'"

definition reachable :: "database \<Rightarrow> bool" where
  "reachable db = rtranclp store_step (init_database empty_database) db"

section \<open>Notions used to state the properties\<close>

text \<open>
  The key of a row of \<^verbatim>\<open>skills\<close>, and the level a table holds for a key, with the
  default 1 of the program's readers for a key that has no row.
\<close>

fun key_of :: "string \<times> string \<times> int \<Rightarrow> string \<times> string" where
  "key_of (a, s, l) = (a, s)"

fun kv_of :: "string \<times> string \<times> int \<Rightarrow> (string \<times> string) \<times> int" where
  "kv_of (a, s, l) = ((a, s), l)"

definition level_in :: "(string \<times> string \<times> int) list \<Rightarrow> string \<Rightarrow> string \<Rightarrow> int" where
  "level_in rows a s = (case map_of (map kv_of rows) (a, s) of None \<Rightarrow> 1 | Some l \<Rightarrow> l)"

text \<open>
  The shape of the table that \<^verbatim>\<open>init_database\<close> creates and that every operation keeps:
  one row for each skill of the taxonomy, in its order, with a level between 1 and 100.
\<close>

definition store_ok :: "database \<Rightarrow> bool" where
  "store_ok db \<longleftrightarrow>
     map key_of (skills db) = skill_keys \<and> list_all (\<lambda>(a, s, l). 1 \<le> l \<and> l \<le> 100) (skills db)"

text \<open>The components of an update, and what it does to the table \<^verbatim>\<open>skills\<close>.\<close>

fun update_key :: "update \<Rightarrow> string \<times> string" where
  "update_key (a, s, old, new, g) = (a, s)"

fun update_old :: "update \<Rightarrow> int" where
  "update_old (a, s, old, new, g) = old"

fun update_new :: "update \<Rightarrow> int" where
  "update_new (a, s, old, new, g) = new"

fun update_gain :: "update \<Rightarrow> int" where
  "update_gain (a, s, old, new, g) = g"

fun apply_level :: "update \<Rightarrow> (string \<times> string \<times> int) list \<Rightarrow> (string \<times> string \<times> int) list" where
  "apply_level (a, s, old, new, g) rows = update_skill a s new rows"

definition row_key :: "session_updates_row \<Rightarrow> string \<times> string" where
  "row_key r = (row_attribute r, row_skill_name r)"

text \<open>
  The entries of the update form in the windows: the key of an entry, the entry that an
  update was made from, and the entries that \<^verbatim>\<open>process_skill_updates\<close> lets pass (blank,
  or a number from the current level up to 10 above it and at most 100).
\<close>

fun entry_key :: "entry \<Rightarrow> string \<times> string" where
  "entry_key (a, s, t, cur) = (a, s)"

fun entry_of_update :: "update \<Rightarrow> entry" where
  "entry_of_update (a, s, old, new, g) = (a, s, IntText new, old)"


text \<open>
  The updates of an assessment. On the console the update of a skill is made from its
  assessed level. In the windows the level of an entry is \<^verbatim>\<open>max(1, min(100, int(text or
  1)))\<close>, and 1 where \<^verbatim>\<open>int\<close> raises \<^verbatim>\<open>ValueError\<close>.
\<close>

fun assessment_update :: "string \<times> string \<times> int \<Rightarrow> update" where
  "assessment_update (a, s, level) = (a, s, 1, level, level - 1)"

fun entry_level :: "field_text \<Rightarrow> int" where
  "entry_level Blank = 1"
| "entry_level (IntText n) = max 1 (min 100 n)"
| "entry_level Malformed = 1"

fun entry_update :: "string \<times> string \<times> field_text \<Rightarrow> update" where
  "entry_update (a, s, t) = (a, s, 1, entry_level t, entry_level t - 1)"

section \<open>Example inputs\<close>

text \<open>The store of a first start, and a clock.\<close>

definition fresh_store :: database where
  "fresh_store = init_database empty_database"

definition example_clock :: clock where
  "example_clock = \<lparr>now_isoformat = ''2025-01-01T09:00:00'', now_hms = ''09:00:00''\<rparr>"

text \<open>
  An assessment in the windows that enters 70 for every skill; an assessment on the
  console that sets one skill to 70; an update that asks for level 150.
\<close>

definition all_seventy :: "(string \<times> string \<times> field_text) list" where
  "all_seventy = map (\<lambda>(a, s). (a, s, IntText 70)) skill_keys"

definition one_skill_seventy :: "(string \<times> string \<times> int) list" where
  "one_skill_seventy = [(''life_skills'', ''communication'', 70)]"




text \<open>
  The lines typed in a console update session that raises the first skill by 5 and the
  second by 3 and keeps the other 48, and the store that such a session is expected to
  leave.
\<close>

definition five_and_three :: "field_text list" where
  "five_and_three = IntText 6 # IntText 4 # replicate 48 Blank"

definition after_five_and_three :: database where
  "after_five_and_three =
     save_update_session ''2025-01-01T09:00:00''
       [(''life_skills'', ''communication'', 1, 6, 5),
        (''life_skills'', ''critical_thinking_problem_solving'', 1, 4, 3)] 8 fresh_store"




section \<open>Facts about the logistic curve\<close>

lemma sigmoid_value_pos: "0 < sigmoid_value x"
  by (simp add: sigmoid_value_def add_pos_pos)

lemma sigmoid_value_less_one: "sigmoid_value x < 1"
proof -
  have "(1::real) < 1 + exp (- 10 * (x - 1 / 2))" by simp
  then have "1 / (1 + exp (- 10 * (x - 1 / 2))) < 1"
    by (subst divide_less_eq_1_pos) (simp_all add: add_pos_pos)
  then show ?thesis by (simp only: sigmoid_value_def)
qed


lemma sigmoid_value_half: "sigmoid_value (1 / 2) = 1 / 2"
  by (simp add: sigmoid_value_def)

lemma level_floor_bounds:
  "1 \<le> \<lfloor>1 + sigmoid_value x * 99\<rfloor> \<and> \<lfloor>1 + sigmoid_value x * 99\<rfloor> \<le> 99"
proof -
  have lo: "0 < sigmoid_value x" by (rule sigmoid_value_pos)
  have hi: "sigmoid_value x < 1" by (rule sigmoid_value_less_one)
  have "(1::real) \<le> 1 + sigmoid_value x * 99" using lo by simp
  then have a: "1 \<le> \<lfloor>1 + sigmoid_value x * 99\<rfloor>" by (simp add: le_floor_iff)
  have "1 + sigmoid_value x * 99 < 100" using hi by simp
  then have "\<lfloor>1 + sigmoid_value x * 99\<rfloor> < 100" by (simp add: floor_less_iff)
  with a show ?thesis by simp
qed




section \<open>Facts about the leveling calculator\<close>


lemma level_pos:
  assumes "0 < total_points" and "max_points \<noteq> 0"
  shows "sigmoid_level_calculation total_points max_points =
           Inr \<lfloor>1 + sigmoid_value (real_of_int total_points / real_of_int max_points) * 99\<rfloor>"
proof -
  have "\<lfloor>1 + sigmoid_value (real_of_int total_points / real_of_int max_points) * 99\<rfloor> \<le> 99"
    using level_floor_bounds by blast
  then have "min \<lfloor>1 + sigmoid_value (real_of_int total_points / real_of_int max_points) * 99\<rfloor> 100
      = \<lfloor>1 + sigmoid_value (real_of_int total_points / real_of_int max_points) * 99\<rfloor>"
    by simp
  with assms show ?thesis
    by (simp add: sigmoid_level_calculation_def Let_def)
qed


lemma level_midpoint: "sigmoid_level_calculation 250 500 = Inr 50"
  by (simp add: level_pos sigmoid_value_half)


section \<open>Claims about the leveling calculator\<close>








section \<open>Facts about the store\<close>

lemma skill_keys_distinct: "distinct skill_keys"
  by code_simp

lemma length_skill_keys: "length skill_keys = 50"
  by code_simp




lemma init_skills: "skills (init_database empty_database) = map (\<lambda>(a, s). (a, s, 1)) skill_keys"
  by code_simp

lemma init_sessions: "sessions (init_database empty_database) = []"
  by (simp add: init_database_def empty_database_def)

lemma init_session_updates: "session_updates (init_database empty_database) = []"
  by (simp add: init_database_def empty_database_def)

lemma init_store_ok: "store_ok (init_database empty_database)"
  unfolding store_ok_def init_skills
  by (simp add: list_all_iff comp_def case_prod_unfold)

lemma map_of_kv_None: "k \<notin> set (map key_of rows) \<Longrightarrow> map_of (map kv_of rows) k = None"
  by (induction rows) auto

lemma fold_map_upd:
  "distinct (map key_of rows) \<Longrightarrow>
   fold (\<lambda>(a, s, l) m. m((a, s) \<mapsto> l)) rows m = m ++ map_of (map kv_of rows)"
proof (induction rows arbitrary: m)
  case Nil
  then show ?case by simp
next
  case (Cons r rows)
  obtain a s l where r: "r = (a, s, l)" by (cases r)
  from Cons.prems have d: "distinct (map key_of rows)" and n: "(a, s) \<notin> set (map key_of rows)"
    by (simp_all add: r)
  from n have nd: "map_of (map kv_of rows) (a, s) = None"
    by (rule map_of_kv_None)
  have "fold (\<lambda>(a, s, l) m. m((a, s) \<mapsto> l)) (r # rows) m
      = fold (\<lambda>(a, s, l) m. m((a, s) \<mapsto> l)) rows (m((a, s) \<mapsto> l))"
    by (simp add: r)
  also have "\<dots> = m((a, s) \<mapsto> l) ++ map_of (map kv_of rows)"
    by (rule Cons.IH [OF d])
  also have "\<dots> = m ++ map_of (map kv_of (r # rows))"
    using nd by (auto simp: r map_add_def fun_eq_iff split: option.splits)
  finally show ?case .
qed

lemma current_level_of_stored:
  "distinct (map key_of (skills db)) \<Longrightarrow>
   current_level_of (get_current_skills db) a s = level_in (skills db) a s"
  by (simp add: current_level_of_def get_current_skills_def fold_map_upd level_in_def)

lemma update_skill_Nil: "update_skill a s v [] = []"
  by (simp add: update_skill_def)

lemma update_skill_Cons:
  "update_skill a s v ((a', s', l) # rows) =
     (if a' = a \<and> s' = s then (a', s', v) else (a', s', l)) # update_skill a s v rows"
  by (simp add: update_skill_def)

lemma keys_update_skill: "map key_of (update_skill a s v rows) = map key_of rows"
proof (induction rows)
  case Nil
  show ?case by (simp add: update_skill_Nil)
next
  case (Cons r rows)
  obtain a' s' l where r: "r = (a', s', l)" by (cases r)
  show ?case using Cons.IH by (simp add: r update_skill_Cons)
qed

lemma levels_update_skill:
  "list_all (\<lambda>(a, s, l). 1 \<le> l \<and> l \<le> 100) rows \<Longrightarrow> 1 \<le> v \<Longrightarrow> v \<le> 100 \<Longrightarrow>
   list_all (\<lambda>(a, s, l). 1 \<le> l \<and> l \<le> 100) (update_skill a s v rows)"
proof (induction rows)
  case Nil
  show ?case by (simp add: update_skill_Nil)
next
  case (Cons r rows)
  obtain a' s' l where r: "r = (a', s', l)" by (cases r)
  show ?case using Cons by (simp add: r update_skill_Cons)
qed

lemma key_of_in_image: "(a, s, l) \<in> set rows \<Longrightarrow> (a, s) \<in> key_of ` set rows"
  by force

lemma map_of_update_skill:
  "map_of (map kv_of (update_skill a s v rows)) k =
     (if k = (a, s) \<and> k \<in> set (map key_of rows) then Some v else map_of (map kv_of rows) k)"
proof (induction rows)
  case Nil
  show ?case by (simp add: update_skill_Nil)
next
  case (Cons r rows)
  obtain a' s' l where r: "r = (a', s', l)" by (cases r)
  show ?case
  proof (cases "a' = a \<and> s' = s")
    case True
    then show ?thesis using Cons.IH by (simp add: r update_skill_Cons)
  next
    case False
    then show ?thesis using Cons.IH by (auto simp add: r update_skill_Cons dest: key_of_in_image)
  qed
qed

lemma level_in_update_skill:
  "level_in (update_skill a s v rows) a' s' =
     (if (a', s') = (a, s) \<and> (a, s) \<in> set (map key_of rows) then v else level_in rows a' s')"
  by (auto simp: level_in_def map_of_update_skill)


lemma level_in_bounds:
  "list_all (\<lambda>(a, s, l). 1 \<le> l \<and> l \<le> 100) rows \<Longrightarrow> 1 \<le> level_in rows a s \<and> level_in rows a s \<le> 100"
proof (cases "map_of (map kv_of rows) (a, s)")
  case None
  then show ?thesis by (simp add: level_in_def)
next
  case (Some l)
  assume ok: "list_all (\<lambda>(a, s, l). 1 \<le> l \<and> l \<le> 100) rows"
  from Some have "((a, s), l) \<in> set (map kv_of rows)" by (rule map_of_SomeD)
  then have "(a, s, l) \<in> set rows" by auto
  with ok have "1 \<le> l \<and> l \<le> 100" by (auto simp: list_all_iff)
  with Some show ?thesis by (simp add: level_in_def)
qed

lemma insert_session_fields:
  "skills (fst (insert_session ts g ty n db)) = skills db"
  "session_updates (fst (insert_session ts g ty n db)) = session_updates db"
  "sessions (fst (insert_session ts g ty n db)) = sessions db @
     [\<lparr>session_rowid = snd (insert_session ts g ty n db), session_timestamp = ts, total_gains = g,
       session_type = ty, session_notes = n\<rparr>]"
  by (simp_all add: insert_session_def Let_def)

lemma write_update_fields:
  "sessions (write_update sid u db) = sessions db"
  "session_updates (write_update sid u db) = session_updates db @ [update_row sid u]"
  "skills (write_update sid (a, s, old, new, g) db) = update_skill a s new (skills db)"
  by (simp_all add: write_update_def split: prod.splits)

lemma skills_write_update: "skills (write_update sid u db) = apply_level u (skills db)"
  by (cases u) (simp add: write_update_fields)

lemma fold_write_update_sessions: "sessions (fold (write_update sid) ups db) = sessions db"
  by (induction ups arbitrary: db) (simp_all add: write_update_fields)

lemma fold_write_update_rows:
  "session_updates (fold (write_update sid) ups db) = session_updates db @ map (update_row sid) ups"
  by (induction ups arbitrary: db) (simp_all add: write_update_fields)

lemma fold_write_update_skills:
  "skills (fold (write_update sid) ups db) = fold apply_level ups (skills db)"
  by (induction ups arbitrary: db) (simp_all add: skills_write_update)

lemma save_update_session_fields:
  "sessions (save_update_session ts ups g db) = sessions db @
     [\<lparr>session_rowid = snd (insert_session ts g ''skill_update'' None db), session_timestamp = ts,
       total_gains = g, session_type = ''skill_update'', session_notes = None\<rparr>]"
  "session_updates (save_update_session ts ups g db) = session_updates db @
     map (update_row (snd (insert_session ts g ''skill_update'' None db))) ups"
  "skills (save_update_session ts ups g db) = fold apply_level ups (skills db)"
  by (simp_all add: save_update_session_def split_beta fold_write_update_sessions
      fold_write_update_rows fold_write_update_skills insert_session_fields)

lemma keys_apply_level: "map key_of (apply_level u rows) = map key_of rows"
  by (cases u) (simp add: keys_update_skill)

lemma keys_fold_apply_level: "map key_of (fold apply_level ups rows) = map key_of rows"
  by (induction ups arbitrary: rows) (simp_all add: keys_apply_level)

lemma levels_fold_apply_level:
  "list_all (\<lambda>(a, s, l). 1 \<le> l \<and> l \<le> 100) rows \<Longrightarrow>
   \<forall>u\<in>set ups. 1 \<le> update_new u \<and> update_new u \<le> 100 \<Longrightarrow>
   list_all (\<lambda>(a, s, l). 1 \<le> l \<and> l \<le> 100) (fold apply_level ups rows)"
proof (induction ups arbitrary: rows)
  case Nil
  then show ?case by simp
next
  case (Cons u ups)
  obtain a s old new g where u: "u = (a, s, old, new, g)" by (cases u)
  from Cons.prems have "list_all (\<lambda>(a, s, l). 1 \<le> l \<and> l \<le> 100) (apply_level u rows)"
    by (simp add: u levels_update_skill)
  moreover from Cons.prems have "\<forall>u\<in>set ups. 1 \<le> update_new u \<and> update_new u \<le> 100" by simp
  ultimately show ?case using Cons.IH by simp
qed

lemma level_in_apply_level:
  "level_in (apply_level u rows) a s =
     (if update_key u = (a, s) \<and> (a, s) \<in> set (map key_of rows) then update_new u else level_in rows a s)"
  by (cases u) (auto simp: level_in_update_skill)

lemma level_in_fold_other:
  "(a, s) \<notin> set (map update_key ups) \<Longrightarrow> level_in (fold apply_level ups rows) a s = level_in rows a s"
proof (induction ups arbitrary: rows)
  case Nil
  then show ?case by simp
next
  case (Cons u ups)
  from Cons.prems have "update_key u \<noteq> (a, s)" and "(a, s) \<notin> set (map update_key ups)" by auto
  then show ?case using Cons.IH by (simp add: level_in_apply_level)
qed

lemma level_in_fold_written:
  "distinct (map update_key ups) \<Longrightarrow> u \<in> set ups \<Longrightarrow> update_key u = (a, s) \<Longrightarrow>
   (a, s) \<in> set (map key_of rows) \<Longrightarrow> level_in (fold apply_level ups rows) a s = update_new u"
proof (induction ups arbitrary: rows)
  case Nil
  then show ?case by simp
next
  case (Cons v ups)
  show ?case
  proof (cases "u = v")
    case True
    with Cons.prems have "(a, s) \<notin> set (map update_key ups)" by auto
    then have "level_in (fold apply_level ups (apply_level v rows)) a s = level_in (apply_level v rows) a s"
      by (rule level_in_fold_other)
    with True Cons.prems show ?thesis by (simp add: level_in_apply_level)
  next
    case False
    with Cons.prems have "u \<in> set ups" and "distinct (map update_key ups)" by auto
    moreover from Cons.prems have "(a, s) \<in> set (map key_of (apply_level v rows))"
      by (simp add: keys_apply_level)
    ultimately have "level_in (fold apply_level ups (apply_level v rows)) a s = update_new u"
      using Cons.prems(3) by (intro Cons.IH)
    then show ?thesis by simp
  qed
qed

lemma prompt_update_result:
  "prompt_update cur inputs = Inr (n, rest) \<Longrightarrow>
   (n = cur \<or> (IntText n \<in> set inputs \<and> cur \<le> n \<and> n \<le> cur + 10 \<and> n \<le> 100)) \<and>
   set rest \<subseteq> set inputs"
proof (induction inputs)
  case Nil
  then show ?case by simp
next
  case (Cons i inputs)
  then show ?case by (cases i) (auto split: if_splits)
qed

lemma update_loop_result:
  "update_loop cs keys inputs acc tot = Inr (ups, g, rest) \<Longrightarrow>
   \<exists>new_ups. ups = acc @ new_ups \<and> g = tot + sum_list (map update_gain new_ups) \<and>
     set (map update_key new_ups) \<subseteq> set keys \<and>
     (distinct keys \<longrightarrow> distinct (map update_key new_ups)) \<and>
     (\<forall>u\<in>set new_ups. update_old u = (case update_key u of (a, s) \<Rightarrow> current_level_of cs a s) \<and>
        update_old u < update_new u \<and> update_new u \<le> update_old u + 10 \<and> update_new u \<le> 100 \<and>
        update_gain u = update_new u - update_old u \<and> IntText (update_new u) \<in> set inputs)"
proof (induction keys arbitrary: inputs acc tot)
  case Nil
  then show ?case by simp
next
  case (Cons k keys)
  obtain a s where k: "k = (a, s)" by (cases k)
  define cur where "cur = current_level_of cs a s"
  from Cons.prems obtain n rest1 where p: "prompt_update cur inputs = Inr (n, rest1)"
    by (auto simp: k cur_def Let_def split: sum.splits)
  from prompt_update_result [OF p]
  have n: "n = cur \<or> (IntText n \<in> set inputs \<and> cur \<le> n \<and> n \<le> cur + 10 \<and> n \<le> 100)"
    and sub: "set rest1 \<subseteq> set inputs" by simp_all
  show ?case
  proof (cases "n > cur")
    case True
    with Cons.prems p have
      "update_loop cs keys rest1 (acc @ [(a, s, cur, n, n - cur)]) (tot + (n - cur)) = Inr (ups, g, rest)"
      by (simp add: k cur_def Let_def)
    from Cons.IH [OF this] obtain new_ups where
      h: "ups = (acc @ [(a, s, cur, n, n - cur)]) @ new_ups"
         "g = tot + (n - cur) + sum_list (map update_gain new_ups)"
         "set (map update_key new_ups) \<subseteq> set keys"
         "distinct keys \<longrightarrow> distinct (map update_key new_ups)"
         "\<forall>u\<in>set new_ups. update_old u = (case update_key u of (a, s) \<Rightarrow> current_level_of cs a s) \<and>
            update_old u < update_new u \<and> update_new u \<le> update_old u + 10 \<and> update_new u \<le> 100 \<and>
            update_gain u = update_new u - update_old u \<and> IntText (update_new u) \<in> set rest1"
      by blast
    show ?thesis
      using h n True sub
      by (intro exI [of _ "(a, s, cur, n, n - cur) # new_ups"]) (auto simp: k cur_def)
  next
    case False
    with Cons.prems p have "update_loop cs keys rest1 acc tot = Inr (ups, g, rest)"
      by (simp add: k cur_def Let_def)
    from Cons.IH [OF this] obtain new_ups where
      h: "ups = acc @ new_ups"
         "g = tot + sum_list (map update_gain new_ups)"
         "set (map update_key new_ups) \<subseteq> set keys"
         "distinct keys \<longrightarrow> distinct (map update_key new_ups)"
         "\<forall>u\<in>set new_ups. update_old u = (case update_key u of (a, s) \<Rightarrow> current_level_of cs a s) \<and>
            update_old u < update_new u \<and> update_new u \<le> update_old u + 10 \<and> update_new u \<le> 100 \<and>
            update_gain u = update_new u - update_old u \<and> IntText (update_new u) \<in> set rest1"
      by blast
    show ?thesis
      using h sub
      by (intro exI [of _ new_ups]) (auto simp: k)
  qed
qed

lemma validate_entries_result:
  "validate_entries es acc tot = Inr (ups, g) \<Longrightarrow>
   \<exists>new_ups. ups = acc @ new_ups \<and> g = tot + sum_list (map update_gain new_ups) \<and>
     set (map update_key new_ups) \<subseteq> set (map entry_key es) \<and>
     (distinct (map entry_key es) \<longrightarrow> distinct (map update_key new_ups)) \<and>
     (\<forall>u\<in>set new_ups.
        entry_of_update u \<in> set es \<and>
        update_old u < update_new u \<and> update_new u \<le> update_old u + 10 \<and> update_new u \<le> 100 \<and>
        update_gain u = update_new u - update_old u)"
proof (induction es arbitrary: acc tot)
  case Nil
  then show ?case by simp
next
  case (Cons e es)
  obtain a s t cur where e: "e = (a, s, t, cur)" by (cases e)
  show ?case
  proof (cases t)
    case Blank
    with Cons.prems have "validate_entries es acc tot = Inr (ups, g)" by (simp add: e)
    from Cons.IH [OF this] obtain new_ups where
      h: "ups = acc @ new_ups"
         "g = tot + sum_list (map update_gain new_ups)"
         "set (map update_key new_ups) \<subseteq> set (map entry_key es)"
         "distinct (map entry_key es) \<longrightarrow> distinct (map update_key new_ups)"
         "\<forall>u\<in>set new_ups.
            entry_of_update u \<in> set es \<and>
            update_old u < update_new u \<and> update_new u \<le> update_old u + 10 \<and> update_new u \<le> 100 \<and>
            update_gain u = update_new u - update_old u"
      by blast
    show ?thesis
      using h
      by (intro exI [of _ new_ups]) (auto simp: e)
  next
    case Malformed
    with Cons.prems show ?thesis by (simp add: e)
  next
    case (IntText n)
    show ?thesis
    proof (cases "n > cur")
      case True
      with Cons.prems IntText have ok: "n \<le> cur + 10" "n \<le> 100"
        and "validate_entries es (acc @ [(a, s, cur, n, n - cur)]) (tot + (n - cur)) = Inr (ups, g)"
        by (auto simp: e split: if_splits)
      from Cons.IH [OF this(3)] obtain new_ups where
        h: "ups = (acc @ [(a, s, cur, n, n - cur)]) @ new_ups"
           "g = tot + (n - cur) + sum_list (map update_gain new_ups)"
           "set (map update_key new_ups) \<subseteq> set (map entry_key es)"
           "distinct (map entry_key es) \<longrightarrow> distinct (map update_key new_ups)"
           "\<forall>u\<in>set new_ups.
              entry_of_update u \<in> set es \<and>
              update_old u < update_new u \<and> update_new u \<le> update_old u + 10 \<and> update_new u \<le> 100 \<and>
              update_gain u = update_new u - update_old u"
        by blast
      show ?thesis
        using h ok True IntText
        by (intro exI [of _ "(a, s, cur, n, n - cur) # new_ups"]) (auto simp: e)
    next
      case False
      with Cons.prems IntText have "validate_entries es acc tot = Inr (ups, g)"
        by (auto simp: e split: if_splits)
      from Cons.IH [OF this] obtain new_ups where
        h: "ups = acc @ new_ups"
           "g = tot + sum_list (map update_gain new_ups)"
           "set (map update_key new_ups) \<subseteq> set (map entry_key es)"
           "distinct (map entry_key es) \<longrightarrow> distinct (map update_key new_ups)"
           "\<forall>u\<in>set new_ups.
              entry_of_update u \<in> set es \<and>
              update_old u < update_new u \<and> update_new u \<le> update_old u + 10 \<and> update_new u \<le> 100 \<and>
              update_gain u = update_new u - update_old u"
        by blast
      show ?thesis
        using h
        by (intro exI [of _ new_ups]) (auto simp: e)
    qed
  qed
qed

lemma prompt_assessment_result:
  "prompt_assessment inputs = Inr (n, rest) \<Longrightarrow> 1 \<le> n \<and> n \<le> 100"
proof (induction inputs)
  case Nil
  then show ?case by simp
next
  case (Cons i inputs)
  then show ?case by (cases i) (auto split: if_splits)
qed

lemma assessment_loop_result:
  "assessment_loop keys inputs acc_a acc_u = Inr (assessment, ups, rest) \<Longrightarrow>
   \<exists>levels. assessment = acc_a @ levels \<and>
     ups = acc_u @ map (\<lambda>(a, s, l). (a, s, 1, l, l - 1)) levels \<and>
     map key_of levels = keys \<and>
     list_all (\<lambda>(a, s, l). 1 \<le> l \<and> l \<le> 100) levels"
proof (induction keys arbitrary: inputs acc_a acc_u)
  case Nil
  then show ?case by simp
next
  case (Cons k keys)
  obtain a s where k: "k = (a, s)" by (cases k)
  from Cons.prems obtain n rest1 where p: "prompt_assessment inputs = Inr (n, rest1)"
    and r: "assessment_loop keys rest1 (acc_a @ [(a, s, n)]) (acc_u @ [(a, s, 1, n, n - 1)])
              = Inr (assessment, ups, rest)"
    by (auto simp: k split: sum.splits)
  from prompt_assessment_result [OF p] have n: "1 \<le> n \<and> n \<le> 100" .
  from Cons.IH [OF r] obtain levels where
    h: "assessment = (acc_a @ [(a, s, n)]) @ levels"
       "ups = (acc_u @ [(a, s, 1, n, n - 1)]) @ map (\<lambda>(a, s, l). (a, s, 1, l, l - 1)) levels"
       "map key_of levels = keys"
       "list_all (\<lambda>(a, s, l). 1 \<le> l \<and> l \<le> 100) levels"
    by blast
  show ?case
    using h n
    by (intro exI [of _ "(a, s, n) # levels"]) (simp add: k)
qed

lemma crystal_updates_result:
  "crystal_updates es acc tot =
     (acc @ map (\<lambda>(a, s, txt). (a, s, 1, entry_level txt, entry_level txt - 1)) es,
      tot + sum_list (map (\<lambda>(a, s, txt). entry_level txt - 1) es))"
proof (induction es arbitrary: acc tot)
  case Nil
  then show ?case by simp
next
  case (Cons e es)
  obtain a s t where e: "e = (a, s, t)" by (cases e)
  show ?case by (cases t) (simp_all add: e Cons.IH Let_def)
qed

lemma fold_assessment_updates:
  "fold (\<lambda>(a, s, level). write_update sid (a, s, 1, level, level - 1)) assessment db =
   fold (write_update sid) (map assessment_update assessment) db"
proof (induction assessment arbitrary: db)
  case Nil
  show ?case by simp
next
  case (Cons r rows)
  obtain a s l where r: "r = (a, s, l)" by (cases r)
  show ?case by (simp add: r Cons.IH)
qed

lemma save_crystal_ball_assessment_fields:
  "sessions (save_crystal_ball_assessment assessment ts ups db) = sessions db @
     [\<lparr>session_rowid = snd (insert_session ts (sum_list (map update_gain ups))
         ''crystal_ball_assessment'' (Some crystal_ball_notes) db),
       session_timestamp = ts, total_gains = sum_list (map update_gain ups),
       session_type = ''crystal_ball_assessment'', session_notes = Some crystal_ball_notes\<rparr>]"
  "session_updates (save_crystal_ball_assessment assessment ts ups db) = session_updates db @
     map (update_row (snd (insert_session ts (sum_list (map update_gain ups))
         ''crystal_ball_assessment'' (Some crystal_ball_notes) db)))
       (map assessment_update assessment)"
  "skills (save_crystal_ball_assessment assessment ts ups db) =
     fold apply_level (map assessment_update assessment) (skills db)"
proof -
  have g: "map (\<lambda>(a, s, old, new, g). g) ups = map update_gain ups"
    by (induction ups) auto
  show
    "sessions (save_crystal_ball_assessment assessment ts ups db) = sessions db @
     [\<lparr>session_rowid = snd (insert_session ts (sum_list (map update_gain ups))
         ''crystal_ball_assessment'' (Some crystal_ball_notes) db),
       session_timestamp = ts, total_gains = sum_list (map update_gain ups),
       session_type = ''crystal_ball_assessment'', session_notes = Some crystal_ball_notes\<rparr>]"
    "session_updates (save_crystal_ball_assessment assessment ts ups db) = session_updates db @
     map (update_row (snd (insert_session ts (sum_list (map update_gain ups))
         ''crystal_ball_assessment'' (Some crystal_ball_notes) db)))
       (map assessment_update assessment)"
    "skills (save_crystal_ball_assessment assessment ts ups db) =
     fold apply_level (map assessment_update assessment) (skills db)"
    by (simp_all add: save_crystal_ball_assessment_def g split_beta fold_assessment_updates
        fold_write_update_sessions fold_write_update_rows fold_write_update_skills
        insert_session_fields)
qed

lemma crystal_updates_entries:
  "crystal_updates es [] 0 = (map entry_update es, sum_list (map update_gain (map entry_update es)))"
proof -
  have a: "map (\<lambda>(a, s, t). (a, s, 1, entry_level t, entry_level t - 1)) es = map entry_update es"
    by (induction es) auto
  have b: "map (\<lambda>(a, s, t). entry_level t - 1) es = map update_gain (map entry_update es)"
    by (induction es) auto
  show ?thesis by (simp add: crystal_updates_result a b)
qed

lemma process_crystal_ball_assessment_fields:
  "sessions (process_crystal_ball_assessment clk es db) = sessions db @
     [\<lparr>session_rowid = snd (insert_session (now_isoformat clk)
         (sum_list (map update_gain (map entry_update es)))
         ''crystal_ball_assessment'' (Some crystal_ball_notes) db),
       session_timestamp = now_isoformat clk,
       total_gains = sum_list (map update_gain (map entry_update es)),
       session_type = ''crystal_ball_assessment'', session_notes = Some crystal_ball_notes\<rparr>]"
  "session_updates (process_crystal_ball_assessment clk es db) = session_updates db @
     map (update_row (snd (insert_session (now_isoformat clk)
         (sum_list (map update_gain (map entry_update es)))
         ''crystal_ball_assessment'' (Some crystal_ball_notes) db)))
       (map entry_update es)"
  "skills (process_crystal_ball_assessment clk es db) =
     fold apply_level (map entry_update es) (skills db)"
  by (simp_all add: process_crystal_ball_assessment_def crystal_updates_entries split_beta
      fold_write_update_sessions fold_write_update_rows fold_write_update_skills
      insert_session_fields)

lemma entry_level_bounds: "1 \<le> entry_level t \<and> entry_level t \<le> 100"
  by (cases t) auto

subsection \<open>Every step keeps the shape of the skills table\<close>

lemma store_ok_distinct: "store_ok db \<Longrightarrow> distinct (map key_of (skills db))"
  by (simp add: store_ok_def skill_keys_distinct)

lemma store_ok_nonempty: "store_ok db \<Longrightarrow> skills db \<noteq> []"
proof
  assume "store_ok db" and "skills db = []"
  then have "skill_keys = []" by (simp add: store_ok_def)
  then show False using length_skill_keys by simp
qed

lemma store_ok_current_level:
  "store_ok db \<Longrightarrow> 1 \<le> current_level_of (get_current_skills db) a s \<and>
     current_level_of (get_current_skills db) a s \<le> 100"
proof -
  assume ok: "store_ok db"
  then have "current_level_of (get_current_skills db) a s = level_in (skills db) a s"
    by (intro current_level_of_stored store_ok_distinct)
  moreover from ok have "list_all (\<lambda>(a, s, l). 1 \<le> l \<and> l \<le> 100) (skills db)"
    by (simp add: store_ok_def)
  ultimately show ?thesis using level_in_bounds [of "skills db" a s] by simp
qed

lemma store_ok_fold_apply_level:
  "store_ok db \<Longrightarrow> skills db' = fold apply_level ups (skills db) \<Longrightarrow>
   \<forall>u\<in>set ups. 1 \<le> update_new u \<and> update_new u \<le> 100 \<Longrightarrow> store_ok db'"
  by (simp add: store_ok_def keys_fold_apply_level levels_fold_apply_level)

lemma store_ok_init_database: "store_ok db \<Longrightarrow> store_ok (init_database db)"
  using store_ok_nonempty [of db] by (simp add: init_database_def)

lemma store_ok_console_assessment:
  assumes "store_ok db" and "crystal_ball_assessment clk inputs db = Inr (db', rest)"
  shows "store_ok db'"
proof -
  from assms(2) obtain assessment ups where
    l: "assessment_loop skill_keys inputs [] [] = Inr (assessment, ups, rest)"
    and d: "db' = save_crystal_ball_assessment assessment (now_isoformat clk) ups db"
    by (auto simp: crystal_ball_assessment_def split: sum.splits)
  from assessment_loop_result [OF l]
  have ok: "list_all (\<lambda>(a, s, l). 1 \<le> l \<and> l \<le> 100) assessment" by auto
  have new: "\<forall>u\<in>set (map assessment_update assessment). 1 \<le> update_new u \<and> update_new u \<le> 100"
    using ok by (auto simp: list_all_iff)
  have sk: "skills db' = fold apply_level (map assessment_update assessment) (skills db)"
    by (simp add: d save_crystal_ball_assessment_fields)
  show ?thesis by (rule store_ok_fold_apply_level [OF assms(1) sk new])
qed

lemma update_skills_session_cases:
  assumes "update_skills_session clk custom_date inputs db = Inr (db', rest)"
  shows "\<exists>ups g.
    update_loop (get_current_skills db) skill_keys inputs [] 0 = Inr (ups, g, rest) \<and>
    (ups = [] \<longrightarrow> db' = db) \<and>
    (ups \<noteq> [] \<longrightarrow> db' = save_update_session (session_timestamp_v2 clk custom_date) ups g db)"
proof (cases "update_loop (get_current_skills db) skill_keys inputs [] 0")
  case (Inl e)
  with assms show ?thesis by (simp add: update_skills_session_def)
next
  case (Inr r)
  obtain ups g rst where r: "r = (ups, g, rst)" by (cases r)
  show ?thesis
  proof (cases "ups = []")
    case True
    with assms Inr r have "db' = db" "rst = rest" by (simp_all add: update_skills_session_def)
    with Inr r True show ?thesis by simp
  next
    case False
    with assms Inr r
    have "db' = save_update_session (session_timestamp_v2 clk custom_date) ups g db" "rst = rest"
      by (simp_all add: update_skills_session_def)
    with Inr r False show ?thesis by simp
  qed
qed

lemma store_ok_console_update:
  assumes "store_ok db" and "update_skills_session clk custom_date inputs db = Inr (db', rest)"
  shows "store_ok db'"
proof -
  from update_skills_session_cases [OF assms(2)] obtain ups g where
    l: "update_loop (get_current_skills db) skill_keys inputs [] 0 = Inr (ups, g, rest)"
    and d0: "ups = [] \<Longrightarrow> db' = db"
    and d1: "ups \<noteq> [] \<Longrightarrow> db' = save_update_session (session_timestamp_v2 clk custom_date) ups g db"
    by blast
  from update_loop_result [OF l]
  have props: "\<forall>u\<in>set ups. update_old u = (case update_key u of (a, s) \<Rightarrow>
            current_level_of (get_current_skills db) a s) \<and>
          update_old u < update_new u \<and> update_new u \<le> 100"
    by auto
  have new: "\<forall>u\<in>set ups. 1 \<le> update_new u \<and> update_new u \<le> 100"
  proof
    fix u assume "u \<in> set ups"
    with props have u: "update_old u = (case update_key u of (a, s) \<Rightarrow>
            current_level_of (get_current_skills db) a s)"
      "update_old u < update_new u" "update_new u \<le> 100" by auto
    obtain a s old new gn where uu: "u = (a, s, old, new, gn)" by (cases u)
    from u(1) have "old = current_level_of (get_current_skills db) a s" by (simp add: uu)
    with store_ok_current_level [OF assms(1), of a s] have "1 \<le> old" by simp
    with u show "1 \<le> update_new u \<and> update_new u \<le> 100" by (simp add: uu)
  qed
  show ?thesis
  proof (cases "ups = []")
    case True
    with d0 assms(1) show ?thesis by simp
  next
    case False
    with d1 have "skills db' = fold apply_level ups (skills db)"
      by (simp add: save_update_session_fields)
    with assms(1) show ?thesis using new by (rule store_ok_fold_apply_level)
  qed
qed

lemma store_ok_window_assessment:
  assumes "store_ok db"
  shows "store_ok (process_crystal_ball_assessment clk es db)"
proof -
  have new: "\<forall>u\<in>set (map entry_update es). 1 \<le> update_new u \<and> update_new u \<le> 100"
    using entry_level_bounds by auto
  have sk: "skills (process_crystal_ball_assessment clk es db) =
      fold apply_level (map entry_update es) (skills db)"
    by (simp add: process_crystal_ball_assessment_fields)
  show ?thesis by (rule store_ok_fold_apply_level [OF assms sk new])
qed

lemma update_entries_current:
  "e \<in> set (update_entries_of db typed) \<Longrightarrow>
   \<exists>a s t. e = (a, s, t, current_level_of (get_current_skills db) a s)"
  by (auto simp: update_entries_of_def)

lemma store_ok_window_update:
  assumes "store_ok db"
    and "process_skill_updates clk custom_date (update_entries_of db typed) db = (db', out)"
  shows "store_ok db'"
proof (cases "validate_entries (update_entries_of db typed) [] 0")
  case (Inl e)
  with assms show ?thesis by (simp add: process_skill_updates_def)
next
  case (Inr r)
  obtain ups g where r: "r = (ups, g)" by (cases r)
  from validate_entries_result [OF Inr [unfolded r]]
  have "\<forall>u\<in>set ups. entry_of_update u \<in> set (update_entries_of db typed) \<and>
          update_old u < update_new u \<and> update_new u \<le> 100"
    by auto
  then have new: "\<forall>u\<in>set ups. 1 \<le> update_new u \<and> update_new u \<le> 100"
  proof (intro ballI)
    fix u assume "\<forall>u\<in>set ups. entry_of_update u \<in> set (update_entries_of db typed) \<and>
          update_old u < update_new u \<and> update_new u \<le> 100" and "u \<in> set ups"
    then have u: "entry_of_update u \<in> set (update_entries_of db typed)"
      "update_old u < update_new u" "update_new u \<le> 100" by auto
    obtain a s old new gn where uu: "u = (a, s, old, new, gn)" by (cases u)
    from update_entries_current [OF u(1)] have "old = current_level_of (get_current_skills db) a s"
      by (auto simp: uu)
    with store_ok_current_level [OF assms(1), of a s] have "1 \<le> old" by simp
    with u show "1 \<le> update_new u \<and> update_new u \<le> 100" by (simp add: uu)
  qed
  consider "db' = db" | ts where "db' = save_update_session ts ups g db"
    using assms(2) Inr r by (auto simp: process_skill_updates_def split: if_splits date_text.splits)
  then show ?thesis
  proof cases
    case 1
    with assms(1) show ?thesis by simp
  next
    case 2
    then have "skills db' = fold apply_level ups (skills db)"
      by (simp add: save_update_session_fields)
    with assms(1) show ?thesis using new by (rule store_ok_fold_apply_level)
  qed
qed

lemma store_step_ok: "store_step db db' \<Longrightarrow> store_ok db \<Longrightarrow> store_ok db'"
proof (induction rule: store_step.induct)
  case (restart db)
  then show ?case by (rule store_ok_init_database)
next
  case (console_assessment clk inputs db db' rest)
  then show ?case by (blast intro: store_ok_console_assessment)
next
  case (console_update clk custom_date inputs db db' rest)
  then show ?case by (blast intro: store_ok_console_update)
next
  case (window_assessment entries db clk)
  then show ?case by (blast intro: store_ok_window_assessment)
next
  case (window_update clk custom_date db typed db' out)
  then show ?case by (blast intro: store_ok_window_update)
qed

lemma steps_ok: "rtranclp store_step db db' \<Longrightarrow> store_ok db \<Longrightarrow> store_ok db'"
  by (induction rule: rtranclp_induct) (auto intro: store_step_ok)

lemma reachable_ok: "reachable db \<Longrightarrow> store_ok db"
  unfolding reachable_def by (rule steps_ok [OF _ init_store_ok])

section \<open>Sessions are only ever appended\<close>

lemma process_skill_updates_cases:
  assumes "process_skill_updates clk custom_date es db = (db', out)"
  shows "(db' = db \<and> (\<forall>n g. out \<noteq> Success n g)) \<or>
         (\<exists>ups g ts. validate_entries es [] 0 = Inr (ups, g) \<and> ups \<noteq> [] \<and>
            db' = save_update_session ts ups g db \<and> out = Success (length ups) g)"
proof (cases "validate_entries es [] 0")
  case (Inl e)
  with assms show ?thesis by (auto simp: process_skill_updates_def)
next
  case (Inr r)
  obtain ups g where r: "r = (ups, g)" by (cases r)
  show ?thesis
  proof (cases "ups = []")
    case True
    with assms Inr r show ?thesis by (auto simp: process_skill_updates_def)
  next
    case False
    with assms Inr r show ?thesis
      by (cases custom_date) (auto simp: process_skill_updates_def)
  qed
qed

lemma sessions_step: "store_step db db' \<Longrightarrow> \<exists>xs. sessions db' = sessions db @ xs"
proof (induction rule: store_step.induct)
  case (restart db)
  show ?case by (simp add: init_database_def)
next
  case (console_assessment clk inputs db db' rest)
  then show ?case
    by (auto simp: crystal_ball_assessment_def save_crystal_ball_assessment_fields split: sum.splits)
next
  case (console_update clk custom_date inputs db db' rest)
  from update_skills_session_cases [OF console_update] obtain ups g where
    "ups = [] \<longrightarrow> db' = db"
    "ups \<noteq> [] \<longrightarrow> db' = save_update_session (session_timestamp_v2 clk custom_date) ups g db"
    by blast
  then show ?case by (cases "ups = []") (simp_all add: save_update_session_fields)
next
  case (window_assessment entries db clk)
  show ?case by (simp add: process_crystal_ball_assessment_fields)
next
  case (window_update clk custom_date db typed db' out)
  from process_skill_updates_cases [OF window_update]
  show ?case by (auto simp: save_update_session_fields)
qed

lemma sessions_steps: "rtranclp store_step db db' \<Longrightarrow> \<exists>xs. sessions db' = sessions db @ xs"
proof (induction rule: rtranclp_induct)
  case base
  show ?case by simp
next
  case (step y z)
  from step.IH obtain xs where "sessions y = sessions db @ xs" ..
  moreover from sessions_step [OF step.hyps(2)] obtain ys where "sessions z = sessions y @ ys" ..
  ultimately show ?case by simp
qed

lemma check_first_run_iff:
  "check_first_run db \<longleftrightarrow> (\<forall>(a, s, l)\<in>set (skills db). \<not> 1 < l) \<and> sessions db = []"
proof -
  have "length (filter (\<lambda>(a, s, l). l > 1) (skills db)) > 0
      \<longleftrightarrow> (\<exists>(a, s, l)\<in>set (skills db). 1 < l)"
    by (auto simp: length_greater_0_conv filter_empty_conv simp del: length_0_conv)
  then show ?thesis by (auto simp: check_first_run_def Let_def)
qed

section \<open>Claims about the first run\<close>

text \<open>
  Claim C9. In every reachable store \<^verbatim>\<open>check_first_run\<close> returns true exactly when no
  skill has a stored level greater than 1 and the table \<^verbatim>\<open>sessions\<close> is empty. In
  particular, once a step from a reachable store has committed a session (the table
  \<^verbatim>\<open>sessions\<close> has changed), \<^verbatim>\<open>check_first_run\<close> returns false in the store it
  leaves and in every store reached from there.
\<close>

theorem first_run_characterised:
  assumes "reachable db"
  shows "(check_first_run db \<longleftrightarrow> (\<forall>(a, s, l)\<in>set (skills db). \<not> 1 < l) \<and> sessions db = []) \<and>
         (\<forall>db' db''. store_step db db' \<and> sessions db' \<noteq> sessions db \<and> rtranclp store_step db' db''
            \<longrightarrow> \<not> check_first_run db'')"
proof (intro conjI allI impI)
  show "check_first_run db \<longleftrightarrow> (\<forall>(a, s, l)\<in>set (skills db). \<not> 1 < l) \<and> sessions db = []"
    by (rule check_first_run_iff)
next
  fix db' db''
  assume a: "store_step db db' \<and> sessions db' \<noteq> sessions db \<and> rtranclp store_step db' db''"
  then obtain xs where xs: "sessions db' = sessions db @ xs" using sessions_step by blast
  with a have "xs \<noteq> []" by auto
  from a obtain ys where "sessions db'' = sessions db' @ ys" using sessions_steps by blast
  with xs \<open>xs \<noteq> []\<close> have "sessions db'' \<noteq> []" by simp
  then show "\<not> check_first_run db''" by (simp add: check_first_run_iff)
qed

lemma fresh_reachable: "reachable fresh_store"
  by (simp add: reachable_def fresh_store_def)

lemma all_seventy_keys: "map (\<lambda>(a, s, t). (a, s)) all_seventy = skill_keys"
  by (simp add: all_seventy_def comp_def case_prod_unfold)

theorem first_run_witness:
  "reachable fresh_store \<and> check_first_run fresh_store \<and>
   store_step fresh_store (process_crystal_ball_assessment example_clock all_seventy fresh_store) \<and>
   \<not> check_first_run (process_crystal_ball_assessment example_clock all_seventy fresh_store)"
proof -
  let ?db1 = "process_crystal_ball_assessment example_clock all_seventy fresh_store"
  have st: "store_step fresh_store ?db1"
    by (rule store_step.window_assessment [OF all_seventy_keys])
  have ne: "sessions ?db1 \<noteq> sessions fresh_store"
    by (simp add: process_crystal_ball_assessment_fields)
  have sk: "\<forall>(a, s, l)\<in>set (skills fresh_store). \<not> 1 < l"
    by (auto simp: fresh_store_def init_skills)
  have se: "sessions fresh_store = []"
    by (simp add: fresh_store_def init_sessions)
  from first_run_characterised [OF fresh_reachable] sk se st ne
  show ?thesis using fresh_reachable by blast
qed

section \<open>Facts about the rollup\<close>









section \<open>Claims about the overall level\<close>




section \<open>Facts about what an assessment writes\<close>

lemma fresh_has_communication:
  "(''life_skills'', ''communication'') \<in> set (map key_of (skills fresh_store))"
  unfolding fresh_store_def by code_simp

lemma assessment_written:
  assumes "distinct (map key_of assessment)" and "(a, s, level) \<in> set assessment"
    and "(a, s) \<in> set (map key_of rows)"
  shows "level_in (fold apply_level (map assessment_update assessment) rows) a s = level"
proof -
  have k: "map update_key (map assessment_update assessment) = map key_of assessment"
    by (induction assessment) auto
  from assms(1) have d: "distinct (map update_key (map assessment_update assessment))"
    by (simp only: k)
  from assms(2) have m: "assessment_update (a, s, level) \<in> set (map assessment_update assessment)"
    by (simp only: set_map) (rule imageI)
  have "level_in (fold apply_level (map assessment_update assessment) rows) a s
      = update_new (assessment_update (a, s, level))"
    using d m _ assms(3) by (rule level_in_fold_written) simp
  then show ?thesis by simp
qed

lemma entries_written:
  assumes "distinct (map (\<lambda>(a, s, t). (a, s)) entries)" and "(a, s, t) \<in> set entries"
    and "(a, s) \<in> set (map key_of rows)"
  shows "level_in (fold apply_level (map entry_update entries) rows) a s = entry_level t"
proof -
  have k: "map update_key (map entry_update entries) = map (\<lambda>(a, s, t). (a, s)) entries"
    by (induction entries) auto
  from assms(1) have d: "distinct (map update_key (map entry_update entries))"
    by (simp only: k)
  from assms(2) have m: "entry_update (a, s, t) \<in> set (map entry_update entries)"
    by (simp only: set_map) (rule imageI)
  have "level_in (fold apply_level (map entry_update entries) rows) a s
      = update_new (entry_update (a, s, t))"
    using d m _ assms(3) by (rule level_in_fold_written) simp
  then show ?thesis by simp
qed

section \<open>Claims about the write path\<close>




section \<open>Claims about the assessment\<close>

text \<open>
  Claim C4. Every assessment records, for every skill in it, a row with
  \<open>old_level = 1\<close> and \<open>gain = new_level - 1\<close>, whatever level the store held for the
  skill: in the console (\<^verbatim>\<open>save_crystal_ball_assessment\<close>) the row carries the assessed
  level, in the windows (\<^verbatim>\<open>process_crystal_ball_assessment\<close>) the level that
  \<^verbatim>\<open>int(text or 1)\<close> and the clamp to 1..100 give. Neither function can fail, and the
  assessed level is written to the store without any comparison with the level stored
  before, so a decrease or a step of more than 10 is not refused.
\<close>

theorem assessment_rows:
  "(\<exists>sid. session_updates (save_crystal_ball_assessment assessment timestamp updates db) =
      session_updates db @
      map (\<lambda>(a, s, level).
            \<lparr>row_session_id = sid, row_attribute = a, row_skill_name = s,
             row_old_level = 1, row_new_level = level, row_gain = level - 1\<rparr>) assessment) \<and>
   (\<exists>sid. session_updates (process_crystal_ball_assessment clk entries db) =
      session_updates db @
      map (\<lambda>(a, s, t).
            \<lparr>row_session_id = sid, row_attribute = a, row_skill_name = s,
             row_old_level = 1, row_new_level = entry_level t,
             row_gain = entry_level t - 1\<rparr>) entries) \<and>
   (distinct (map key_of assessment) \<and> (a, s, level) \<in> set assessment \<and>
      (a, s) \<in> set (map key_of (skills db)) \<longrightarrow>
      level_in (skills (save_crystal_ball_assessment assessment timestamp updates db)) a s = level) \<and>
   (distinct (map (\<lambda>(a, s, t). (a, s)) entries) \<and> (a, s, t) \<in> set entries \<and>
      (a, s) \<in> set (map key_of (skills db)) \<longrightarrow>
      level_in (skills (process_crystal_ball_assessment clk entries db)) a s = entry_level t)"
proof (intro conjI impI)
  have "map (update_row sid) (map assessment_update assessment) =
      map (\<lambda>(a, s, level).
            \<lparr>row_session_id = sid, row_attribute = a, row_skill_name = s,
             row_old_level = 1, row_new_level = level, row_gain = level - 1\<rparr>) assessment" for sid
    by (induction assessment) auto
  then show "\<exists>sid. session_updates (save_crystal_ball_assessment assessment timestamp updates db) =
      session_updates db @
      map (\<lambda>(a, s, level).
            \<lparr>row_session_id = sid, row_attribute = a, row_skill_name = s,
             row_old_level = 1, row_new_level = level, row_gain = level - 1\<rparr>) assessment"
    by (simp add: save_crystal_ball_assessment_fields) blast
next
  have "map (update_row sid) (map entry_update entries) =
      map (\<lambda>(a, s, t).
            \<lparr>row_session_id = sid, row_attribute = a, row_skill_name = s,
             row_old_level = 1, row_new_level = entry_level t,
             row_gain = entry_level t - 1\<rparr>) entries" for sid
    by (induction entries) auto
  then show "\<exists>sid. session_updates (process_crystal_ball_assessment clk entries db) =
      session_updates db @
      map (\<lambda>(a, s, t).
            \<lparr>row_session_id = sid, row_attribute = a, row_skill_name = s,
             row_old_level = 1, row_new_level = entry_level t,
             row_gain = entry_level t - 1\<rparr>) entries"
    by (simp add: process_crystal_ball_assessment_fields) blast
next
  assume h: "distinct (map key_of assessment) \<and> (a, s, level) \<in> set assessment \<and>
      (a, s) \<in> set (map key_of (skills db))"
  then show "level_in (skills (save_crystal_ball_assessment assessment timestamp updates db)) a s = level"
    by (simp add: save_crystal_ball_assessment_fields assessment_written)
next
  assume h: "distinct (map (\<lambda>(a, s, t). (a, s)) entries) \<and> (a, s, t) \<in> set entries \<and>
      (a, s) \<in> set (map key_of (skills db))"
  then show "level_in (skills (process_crystal_ball_assessment clk entries db)) a s = entry_level t"
    by (simp add: process_crystal_ball_assessment_fields entries_written)
qed

theorem assessment_rows_witness:
  "(\<exists>sid. session_updates (save_crystal_ball_assessment one_skill_seventy ''2025-01-01T09:00:00''
        [(''life_skills'', ''communication'', 1, 70, 69)] fresh_store) =
      [\<lparr>row_session_id = sid, row_attribute = ''life_skills'', row_skill_name = ''communication'',
        row_old_level = 1, row_new_level = 70, row_gain = 69\<rparr>]) \<and>
   level_in (skills (save_crystal_ball_assessment one_skill_seventy ''2025-01-01T09:00:00''
        [(''life_skills'', ''communication'', 1, 70, 69)] fresh_store))
      ''life_skills'' ''communication'' = 70"
  using assessment_rows [of one_skill_seventy "''2025-01-01T09:00:00''"
      "[(''life_skills'', ''communication'', 1, 70, 69)]" fresh_store example_clock "[]"
      "''life_skills''" "''communication''" 70 Blank]
    fresh_has_communication
  by (simp add: one_skill_seventy_def fresh_store_def init_session_updates)

section \<open>Facts about the validation in the windows\<close>







section \<open>Claims about a requested decrease\<close>




section \<open>Facts about the history\<close>






section \<open>Claims about the history\<close>




section \<open>Facts about a committed update session\<close>

lemma update_row_fields:
  "row_session_id (update_row sid u) = sid"
  "row_key (update_row sid u) = update_key u"
  "row_old_level (update_row sid u) = update_old u"
  "row_new_level (update_row sid u) = update_new u"
  "row_gain (update_row sid u) = update_gain u"
  by (cases u; simp add: row_key_def)+

lemma store_ok_level_written:
  assumes "store_ok db" and "store_ok db'"
    and "skills db' = fold apply_level ups (skills db)"
    and "distinct (map update_key ups)" and "u \<in> set ups"
    and "update_key u = (a, s)" and "(a, s) \<in> set skill_keys"
  shows "current_level_of (get_current_skills db') a s = update_new u"
proof -
  from assms(1,7) have "(a, s) \<in> set (map key_of (skills db))" by (simp add: store_ok_def)
  with assms(4,5,6) have "level_in (fold apply_level ups (skills db)) a s = update_new u"
    by (rule level_in_fold_written)
  then have "level_in (skills db') a s = update_new u" by (simp only: assms(3))
  moreover have "current_level_of (get_current_skills db') a s = level_in (skills db') a s"
    by (rule current_level_of_stored [OF store_ok_distinct [OF assms(2)]])
  ultimately show ?thesis by simp
qed

lemma store_ok_level_kept:
  assumes "store_ok db" and "store_ok db'"
    and "skills db' = fold apply_level ups (skills db)"
    and "(a, s) \<notin> set (map update_key ups)"
  shows "current_level_of (get_current_skills db') a s = current_level_of (get_current_skills db) a s"
proof -
  from assms(4) have "level_in (fold apply_level ups (skills db)) a s = level_in (skills db) a s"
    by (rule level_in_fold_other)
  then have "level_in (skills db') a s = level_in (skills db) a s" by (simp only: assms(3))
  moreover have "current_level_of (get_current_skills db') a s = level_in (skills db') a s"
    by (rule current_level_of_stored [OF store_ok_distinct [OF assms(2)]])
  moreover have "current_level_of (get_current_skills db) a s = level_in (skills db) a s"
    by (rule current_level_of_stored [OF store_ok_distinct [OF assms(1)]])
  ultimately show ?thesis by simp
qed

lemma five_and_three_run:
  "update_skills_session example_clock NoDate five_and_three fresh_store
     = Inr (after_five_and_three, [])"
  unfolding fresh_store_def after_five_and_three_def five_and_three_def example_clock_def
  by code_simp

section \<open>Claims about a committed update session\<close>

text \<open>
  Claim C6. Let a console update session (\<^verbatim>\<open>update_skills_session\<close> with
  \<^verbatim>\<open>save_update_session\<close>) run to its end from a reachable store and commit, that is,
  add to the table \<^verbatim>\<open>sessions\<close>. Then it has added exactly one session, of type
  \<^verbatim>\<open>skill_update\<close>, and at least one row of \<^verbatim>\<open>session_updates\<close>, all with the key of
  that session and no two for the same skill. The session's \<open>total_gains\<close> is the sum
  of the gains of these rows. In each row \<open>old_level\<close> is the level the store held for
  the skill before the session, \<open>new_level\<close> is a number typed in the session and is
  the level the store holds for the skill afterwards, and \<open>gain\<close> is their positive
  difference. The skills whose level differs between the two stores are exactly those
  with a row.
\<close>

theorem committed_update_session:
  assumes "reachable db"
    and "update_skills_session clk custom_date inputs db = Inr (db', rest)"
    and "sessions db' \<noteq> sessions db"
  shows "\<exists>session rows.
     sessions db' = sessions db @ [session] \<and>
     session_updates db' = session_updates db @ rows \<and>
     session_type session = ''skill_update'' \<and>
     total_gains session = sum_list (map row_gain rows) \<and>
     rows \<noteq> [] \<and> distinct (map row_key rows) \<and>
     (\<forall>r\<in>set rows.
        row_session_id r = session_rowid session \<and>
        row_old_level r = current_level_of (get_current_skills db) (row_attribute r) (row_skill_name r) \<and>
        row_new_level r = current_level_of (get_current_skills db') (row_attribute r) (row_skill_name r) \<and>
        row_gain r = row_new_level r - row_old_level r \<and> 0 < row_gain r \<and>
        IntText (row_new_level r) \<in> set inputs) \<and>
     (\<forall>a s. current_level_of (get_current_skills db') a s \<noteq> current_level_of (get_current_skills db) a s
        \<longleftrightarrow> (a, s) \<in> set (map row_key rows))"
proof -
  let ?cs = "get_current_skills db"
  let ?ts = "session_timestamp_v2 clk custom_date"
  from assms(1) have ok: "store_ok db" by (rule reachable_ok)
  from ok assms(2) have ok': "store_ok db'" by (rule store_ok_console_update)
  from update_skills_session_cases [OF assms(2)] obtain ups g where
    l: "update_loop ?cs skill_keys inputs [] 0 = Inr (ups, g, rest)"
    and d0: "ups = [] \<longrightarrow> db' = db"
    and d1: "ups \<noteq> [] \<longrightarrow> db' = save_update_session ?ts ups g db"
    by blast
  from d0 assms(3) have ne: "ups \<noteq> []" by auto
  with d1 have db': "db' = save_update_session ?ts ups g db" by simp
  from update_loop_result [OF l] skill_keys_distinct have
    g: "g = sum_list (map update_gain ups)"
    and sub: "set (map update_key ups) \<subseteq> set skill_keys"
    and dist: "distinct (map update_key ups)"
    and props: "\<forall>u\<in>set ups. update_old u = (case update_key u of (a, s) \<Rightarrow> current_level_of ?cs a s) \<and>
        update_old u < update_new u \<and> update_gain u = update_new u - update_old u \<and>
        IntText (update_new u) \<in> set inputs"
    by auto
  define sid where "sid = snd (insert_session ?ts g ''skill_update'' None db)"
  define session where "session = \<lparr>session_rowid = sid, session_timestamp = ?ts, total_gains = g,
      session_type = ''skill_update'', session_notes = None\<rparr>"
  define rows where "rows = map (update_row sid) ups"
  have sk: "skills db' = fold apply_level ups (skills db)"
    by (simp add: db' save_update_session_fields)
  have keys: "map row_key rows = map update_key ups"
    by (simp add: rows_def update_row_fields comp_def)
  have 1: "sessions db' = sessions db @ [session]"
    by (simp add: db' save_update_session_fields session_def sid_def)
  have 2: "session_updates db' = session_updates db @ rows"
    by (simp add: db' save_update_session_fields rows_def sid_def)
  have 3: "session_type session = ''skill_update''" by (simp add: session_def)
  have 4: "total_gains session = sum_list (map row_gain rows)"
    by (simp add: session_def rows_def g update_row_fields comp_def)
  have 5: "rows \<noteq> []" using ne by (simp add: rows_def)
  have 6: "distinct (map row_key rows)" using dist by (simp only: keys)
  have 7: "\<forall>r\<in>set rows.
        row_session_id r = session_rowid session \<and>
        row_old_level r = current_level_of ?cs (row_attribute r) (row_skill_name r) \<and>
        row_new_level r = current_level_of (get_current_skills db') (row_attribute r) (row_skill_name r) \<and>
        row_gain r = row_new_level r - row_old_level r \<and> 0 < row_gain r \<and>
        IntText (row_new_level r) \<in> set inputs"
  proof
    fix r assume "r \<in> set rows"
    then obtain u where u: "u \<in> set ups" and r: "r = update_row sid u"
      by (auto simp: rows_def)
    obtain a s old new gn where uu: "u = (a, s, old, new, gn)" by (cases u)
    from u sub have key: "(a, s) \<in> set skill_keys" by (auto simp: uu)
    have "current_level_of (get_current_skills db') a s = update_new u"
      using ok ok' sk dist u _ key by (rule store_ok_level_written) (simp add: uu)
    with props u show "row_session_id r = session_rowid session \<and>
        row_old_level r = current_level_of ?cs (row_attribute r) (row_skill_name r) \<and>
        row_new_level r = current_level_of (get_current_skills db') (row_attribute r) (row_skill_name r) \<and>
        row_gain r = row_new_level r - row_old_level r \<and> 0 < row_gain r \<and>
        IntText (row_new_level r) \<in> set inputs"
      by (auto simp: r uu session_def)
  qed
  have 8: "\<forall>a s. current_level_of (get_current_skills db') a s \<noteq> current_level_of ?cs a s
        \<longleftrightarrow> (a, s) \<in> set (map row_key rows)"
  proof (intro allI iffI)
    fix a s
    assume "current_level_of (get_current_skills db') a s \<noteq> current_level_of ?cs a s"
    then show "(a, s) \<in> set (map row_key rows)"
      using store_ok_level_kept [OF ok ok' sk, of a s] by (auto simp only: keys)
  next
    fix a s
    assume "(a, s) \<in> set (map row_key rows)"
    then obtain u where u: "u \<in> set ups" and k: "update_key u = (a, s)"
      by (auto simp only: keys set_map)
    from u k sub have key: "(a, s) \<in> set skill_keys" by force
    have "current_level_of (get_current_skills db') a s = update_new u"
      using ok ok' sk dist u k key by (rule store_ok_level_written)
    moreover from props u k have "update_old u = current_level_of ?cs a s" "update_old u < update_new u"
      by auto
    ultimately show "current_level_of (get_current_skills db') a s \<noteq> current_level_of ?cs a s"
      by simp
  qed
  from 1 2 3 4 5 6 7 8 show ?thesis by blast
qed

theorem committed_update_session_witness:
  "reachable fresh_store \<and>
   update_skills_session example_clock NoDate five_and_three fresh_store
     = Inr (after_five_and_three, []) \<and>
   sessions after_five_and_three \<noteq> sessions fresh_store \<and>
   (\<exists>session rows.
      sessions after_five_and_three = sessions fresh_store @ [session] \<and>
      session_updates after_five_and_three = session_updates fresh_store @ rows \<and>
      total_gains session = sum_list (map row_gain rows) \<and>
      total_gains session = 8 \<and> length rows = 2 \<and>
      current_level_of (get_current_skills after_five_and_three)
        ''life_skills'' ''communication'' = 6)"
proof -
  have ne: "sessions after_five_and_three \<noteq> sessions fresh_store"
    by (simp add: after_five_and_three_def save_update_session_fields)
  from committed_update_session [OF fresh_reachable five_and_three_run ne]
  obtain session rows where
    h: "sessions after_five_and_three = sessions fresh_store @ [session]"
       "session_updates after_five_and_three = session_updates fresh_store @ rows"
       "total_gains session = sum_list (map row_gain rows)"
       "\<forall>r\<in>set rows.
          row_new_level r = current_level_of (get_current_skills after_five_and_three)
            (row_attribute r) (row_skill_name r)"
    by blast
  from h(1) have "session = \<lparr>session_rowid =
        snd (insert_session ''2025-01-01T09:00:00'' 8 ''skill_update'' None fresh_store),
      session_timestamp = ''2025-01-01T09:00:00'', total_gains = 8,
      session_type = ''skill_update'', session_notes = None\<rparr>"
    by (simp add: after_five_and_three_def save_update_session_fields)
  then have t: "total_gains session = 8" by simp
  from h(2) have rows: "rows = map (update_row (snd (insert_session ''2025-01-01T09:00:00'' 8 ''skill_update'' None fresh_store)))
       [(''life_skills'', ''communication'', 1, 6, 5),
        (''life_skills'', ''critical_thinking_problem_solving'', 1, 4, 3)]"
    by (simp add: after_five_and_three_def save_update_session_fields)
  then have len: "length rows = 2" by simp
  from rows h(4) have "current_level_of (get_current_skills after_five_and_three)
        ''life_skills'' ''communication'' = 6"
    by simp
  with h(1,2,3) t len ne fresh_reachable five_and_three_run show ?thesis by blast
qed

end
